theory Spec2Isabelle
  imports Main "HOL-Library.Char_ord" "HOL-Library.List_Lexorder" "HOL-Library.Multiset"
begin

section \<open>The time-series store (data\_store.py)\<close>

text \<open>
  The store is an SQLite file with three tables. A table is modelled as the list of its rows in
  insertion order, each row paired with its \<open>id\<close> (\<open>INTEGER PRIMARY KEY AUTOINCREMENT\<close>; no
  row is ever deleted, so the next id is the number of rows plus one).

  Timestamps are the texts produced by \<open>datetime.now().isoformat()\<close>; the column is \<open>TEXT\<close> and
  SQLite compares it bytewise, which is the lexicographic order on \<open>string\<close>. Integers are
  Python's unbounded integers; the 64-bit range of an SQLite \<open>INTEGER\<close> and faults of the
  storage engine itself (a locked or unreadable file) are outside the model.
\<close>

type_synonym timestamp = string

text \<open>
  A clock: \<open>clk hours\<close> is the text
  \<open>(datetime.now() - timedelta(hours=hours)).isoformat()\<close> that a query computes when it runs.
\<close>

type_synonym clock = "int \<Rightarrow> timestamp"

definition clock_fixed :: "timestamp \<Rightarrow> clock" where
  "clock_fixed cutoff hours = cutoff"

record ip_traffic_rec =
  it_ip_address :: string
  it_tx_bytes :: int
  it_rx_bytes :: int
  it_total_bytes :: int
  it_connections :: int
  it_timestamp :: timestamp

record bandwidth_rec =
  bw_interface :: string
  bw_tx_bytes :: int
  bw_rx_bytes :: int
  bw_tx_packets :: int
  bw_rx_packets :: int
  bw_timestamp :: timestamp

record connection_rec =
  src_address :: string
  dst_address :: string
  protocol :: string
  orig_bytes :: int
  repl_bytes :: int
  conn_timestamp :: timestamp

type_synonym 'a table = "(nat \<times> 'a) list"

record db =
  ip_traffic :: "ip_traffic_rec table"
  bandwidth_usage :: "bandwidth_rec table"
  active_connections :: "connection_rec table"

definition empty_db :: db where
  "empty_db = \<lparr>ip_traffic = [], bandwidth_usage = [], active_connections = []\<rparr>"

definition insert_row :: "'a table \<Rightarrow> 'a \<Rightarrow> 'a table" where
  "insert_row t r = t @ [(Suc (length t), r)]"

text \<open>
  \<open>store_ip_traffic\<close>: nothing is written for an empty list; otherwise one \<open>INSERT\<close> per
  record, the six columns taken from the record as they are, then \<open>commit\<close>. A record is a
  dictionary as \<open>get_traffic_by_ip\<close> builds it, with all six keys, texts for the address and the
  timestamp and integers for the rest; the record type admits no other dictionary.
\<close>

definition store_ip_traffic :: "db \<Rightarrow> ip_traffic_rec list \<Rightarrow> db \<times> bool" where
  "store_ip_traffic d traffic_data =
     (if traffic_data = [] then (d, False)
      else (d\<lparr>ip_traffic := foldl insert_row (ip_traffic d) traffic_data\<rparr>, True))"





definition sql_limit :: "int \<Rightarrow> 'a list \<Rightarrow> 'a list" where
  "sql_limit n xs = (if n < 0 then xs else take (nat n) xs)"








section \<open>Host validation (app.py)\<close>

text \<open>
  \<open>is_valid_ip\<close> is \<open>bool(re.compile(r'^(\d{1,3}\.){3}\d{1,3}$').match(ip))\<close>. The pattern is
  written as a regular expression and matched by derivatives. A \<open>char\<close> stands for a code
  point below 256, among which \<open>\d\<close> matches exactly \<open>0\<close> to \<open>9\<close>. \<open>match\<close> anchors at the start,
  and \<open>$\<close> holds at the end of the string and also just before a newline that ends it.
\<close>

datatype rexp = Zero | One | Digit | Chr char | Alt rexp rexp | Seq rexp rexp

definition is_digit :: "char \<Rightarrow> bool" where
  "is_digit c = (CHR ''0'' \<le> c \<and> c \<le> CHR ''9'')"

fun nullable :: "rexp \<Rightarrow> bool" where
  "nullable Zero = False"
| "nullable One = True"
| "nullable Digit = False"
| "nullable (Chr c) = False"
| "nullable (Alt r s) = (nullable r \<or> nullable s)"
| "nullable (Seq r s) = (nullable r \<and> nullable s)"

fun deriv :: "char \<Rightarrow> rexp \<Rightarrow> rexp" where
  "deriv c Zero = Zero"
| "deriv c One = Zero"
| "deriv c Digit = (if is_digit c then One else Zero)"
| "deriv c (Chr d) = (if c = d then One else Zero)"
| "deriv c (Alt r s) = Alt (deriv c r) (deriv c s)"
| "deriv c (Seq r s) =
     (if nullable r then Alt (Seq (deriv c r) s) (deriv c s) else Seq (deriv c r) s)"

definition matches :: "rexp \<Rightarrow> string \<Rightarrow> bool" where
  "matches r s = nullable (foldl (\<lambda>r c. deriv c r) r s)"

text \<open>\<open>\d{1,3}\<close>, then \<open>\d{1,3}\.\<close>, then the whole pattern.\<close>

definition digits_1_3 :: rexp where
  "digits_1_3 = Seq Digit (Alt One (Seq Digit (Alt One Digit)))"

definition octet_dot :: rexp where
  "octet_dot = Seq digits_1_3 (Chr CHR ''.'')"

definition ip_pattern :: rexp where
  "ip_pattern = Seq octet_dot (Seq octet_dot (Seq octet_dot digits_1_3))"

definition is_valid_ip :: "string \<Rightarrow> bool" where
  "is_valid_ip ip =
     (matches ip_pattern ip \<or>
      (ip \<noteq> [] \<and> last ip = CHR 0x0A \<and> matches ip_pattern (butlast ip)))"



text \<open>
  The words of a regular expression, and what the specification calls a valid dotted quad:
  four octets, each one to three decimal digits with a value of at most 255.
\<close>

definition conc :: "string set \<Rightarrow> string set \<Rightarrow> string set" where
  "conc A B = {a @ b | a b. a \<in> A \<and> b \<in> B}"

fun lang :: "rexp \<Rightarrow> string set" where
  "lang Zero = {}"
| "lang One = {[]}"
| "lang Digit = {[c] | c. is_digit c}"
| "lang (Chr d) = {[d]}"
| "lang (Alt r s) = lang r \<union> lang s"
| "lang (Seq r s) = conc (lang r) (lang s)"

definition digit_value :: "char \<Rightarrow> nat" where
  "digit_value c = of_char c - of_char CHR ''0''"

definition octet_value :: "string \<Rightarrow> nat" where
  "octet_value s = foldl (\<lambda>a c. 10 * a + digit_value c) 0 s"

definition digit_string :: "string \<Rightarrow> bool" where
  "digit_string s = (1 \<le> length s \<and> length s \<le> 3 \<and> list_all is_digit s)"

definition valid_octet :: "string \<Rightarrow> bool" where
  "valid_octet s = (digit_string s \<and> octet_value s \<le> 255)"

definition dotted :: "string \<Rightarrow> string \<Rightarrow> string \<Rightarrow> string \<Rightarrow> string" where
  "dotted a b c d = a @ ''.'' @ b @ ''.'' @ c @ ''.'' @ d"


section \<open>Storing connection-tracking entries (data\_store.py)\<close>

text \<open>
  A raw connection entry is a Python \<open>dict\<close> from field names to values. The values the router
  library yields are texts, integers and booleans; \<open>None\<close> is included as well.
\<close>

datatype pyval = PNone | PBool bool | PInt int | PStr string

datatype py_error = ValueError | TypeError | IntegrityError

type_synonym raw_entry = "string \<rightharpoonup> pyval"

definition dict_get :: "raw_entry \<Rightarrow> string \<Rightarrow> pyval \<Rightarrow> pyval" where
  "dict_get data key dflt = (case data key of None \<Rightarrow> dflt | Some v \<Rightarrow> v)"

text \<open>
  Python's \<open>int(x)\<close>. For a text: surrounding whitespace is dropped, one sign is allowed, and the
  rest must be decimal digits, where single underscores may stand between digits; anything else
  raises \<open>ValueError\<close>. \<open>int(None)\<close> raises \<open>TypeError\<close>. (The interpreter's cap on the length
  of a digit string is outside the model.)
\<close>

definition py_isspace :: "char \<Rightarrow> bool" where
  "py_isspace c = (of_char c \<in> {9, 10, 11, 12, 13, 28, 29, 30, 31, 32, 133, 160 :: nat})"

definition strip :: "string \<Rightarrow> string" where
  "strip s = rev (dropWhile py_isspace (rev (dropWhile py_isspace s)))"

fun digits_value :: "nat \<Rightarrow> string \<Rightarrow> nat option" where
  "digits_value acc [] = Some acc"
| "digits_value acc [c] = (if is_digit c then Some (10 * acc + digit_value c) else None)"
| "digits_value acc (c # d # cs) =
     (if is_digit c then digits_value (10 * acc + digit_value c) (d # cs)
      else if c = CHR ''_'' \<and> is_digit d then digits_value (10 * acc + digit_value d) cs
      else None)"

definition int_literal :: "string \<Rightarrow> nat option" where
  "int_literal s = (case s of [] \<Rightarrow> None
                    | c # cs \<Rightarrow> if is_digit c then digits_value (digit_value c) cs else None)"

definition int_of_string :: "string \<Rightarrow> py_error + int" where
  "int_of_string s =
     (let t = strip s;
          (sign, body) = (case t of [] \<Rightarrow> (1, [])
                          | c # cs \<Rightarrow> if c = CHR ''-'' then (- 1, cs)
                                     else if c = CHR ''+'' then (1, cs) else (1, t))
      in case int_literal body of None \<Rightarrow> Inl ValueError | Some n \<Rightarrow> Inr (sign * int n))"

fun py_int :: "pyval \<Rightarrow> py_error + int" where
  "py_int PNone = Inl TypeError"
| "py_int (PBool b) = Inr (if b then 1 else 0)"
| "py_int (PInt i) = Inr i"
| "py_int (PStr s) = int_of_string s"

text \<open>
  What SQLite stores in a \<open>TEXT NOT NULL\<close> column for a bound value: a text as it is, a number
  in its decimal form, and \<open>NULL\<close> is refused (\<open>IntegrityError\<close>).
\<close>

definition digit_char :: "nat \<Rightarrow> char" where
  "digit_char n = char_of (of_char CHR ''0'' + n)"

function show_nat :: "nat \<Rightarrow> string" where
  "show_nat n = (if n < 10 then [digit_char n] else show_nat (n div 10) @ [digit_char (n mod 10)])"
  by pat_completeness auto
termination
  by (relation "measure id") auto

definition show_int :: "int \<Rightarrow> string" where
  "show_int i = (if i < 0 then CHR ''-'' # show_nat (nat (- i)) else show_nat (nat i))"

fun sqlite_text :: "pyval \<Rightarrow> py_error + string" where
  "sqlite_text PNone = Inl IntegrityError"
| "sqlite_text (PBool b) = Inr (if b then ''1'' else ''0'')"
| "sqlite_text (PInt i) = Inr (show_int i)"
| "sqlite_text (PStr s) = Inr s"

text \<open>
  \<open>store_active_connections\<close>: one timestamp for the whole batch; per entry the three texts are
  read with default \<open>''\<close> and the two byte counts with \<open>int(data.get(..., 0))\<close>, then the row is
  inserted. Any exception leaves the \<open>try\<close> block before \<open>commit\<close>: the function returns \<open>False\<close>
  and closing the connection discards the rows inserted so far.
\<close>

definition connection_row :: "timestamp \<Rightarrow> raw_entry \<Rightarrow> py_error + connection_rec" where
  "connection_row ts data =
     (let src = dict_get data ''src-address'' (PStr []);
          dst = dict_get data ''dst-address'' (PStr []);
          proto = dict_get data ''protocol'' (PStr [])
      in case py_int (dict_get data ''orig-bytes'' (PInt 0)) of
           Inl e \<Rightarrow> Inl e
         | Inr orig \<Rightarrow>
        (case py_int (dict_get data ''repl-bytes'' (PInt 0)) of
           Inl e \<Rightarrow> Inl e
         | Inr repl \<Rightarrow>
        (case sqlite_text src of
           Inl e \<Rightarrow> Inl e
         | Inr s \<Rightarrow>
        (case sqlite_text dst of
           Inl e \<Rightarrow> Inl e
         | Inr t \<Rightarrow>
        (case sqlite_text proto of
           Inl e \<Rightarrow> Inl e
         | Inr p \<Rightarrow>
             Inr \<lparr>src_address = s, dst_address = t, protocol = p, orig_bytes = orig,
                  repl_bytes = repl, conn_timestamp = ts\<rparr>)))))"

fun insert_connections ::
    "timestamp \<Rightarrow> connection_rec table \<Rightarrow> raw_entry list \<Rightarrow> py_error + connection_rec table" where
  "insert_connections ts t [] = Inr t"
| "insert_connections ts t (data # rest) =
     (case connection_row ts data of
        Inl e \<Rightarrow> Inl e
      | Inr r \<Rightarrow> insert_connections ts (insert_row t r) rest)"

definition store_active_connections :: "timestamp \<Rightarrow> db \<Rightarrow> raw_entry list \<Rightarrow> db \<times> bool" where
  "store_active_connections now_iso d connection_data =
     (if connection_data = [] then (d, False)
      else case insert_connections now_iso (active_connections d) connection_data of
             Inl e \<Rightarrow> (d, False)
           | Inr t \<Rightarrow> (d\<lparr>active_connections := t\<rparr>, True))"





text \<open>Two raw entries for the examples: one without \<open>orig-bytes\<close>, one whose \<open>orig-bytes\<close> is not a number.\<close>

definition entry_without_orig :: raw_entry where
  "entry_without_orig = map_of
     [(''src-address'', PStr ''192.168.88.10:51000''), (''dst-address'', PStr ''8.8.8.8:53''),
      (''protocol'', PStr ''udp''), (''repl-bytes'', PStr ''120'')]"


text \<open>
  \<open>get_connection_stats\<close> runs four statements, each with its own reading of the clock: the
  number of rows of the window, the rows counted per protocol, and the ten most frequent source
  and destination addresses, each list ordered by count, largest first. The dictionaries built
  from the result rows keep their order.
\<close>

record connection_stats =
  total_connections :: nat
  protocol_counts :: "(string \<times> nat) list"
  top_sources :: "(string \<times> nat) list"
  top_destinations :: "(string \<times> nat) list"

definition count_by :: "('a \<Rightarrow> string) \<Rightarrow> 'a list \<Rightarrow> (string \<times> nat) list" where
  "count_by key rows =
     (let groups = map (\<lambda>k. (k, length (filter (\<lambda>r. key r = k) rows))) (remdups (map key rows))
      in sort_key (\<lambda>g. - int (snd g)) groups)"

definition connections_since :: "timestamp \<Rightarrow> db \<Rightarrow> connection_rec list" where
  "connections_since since d =
     filter (\<lambda>r. since \<le> conn_timestamp r) (map snd (active_connections d))"

definition get_connection_stats ::
    "clock \<Rightarrow> clock \<Rightarrow> clock \<Rightarrow> clock \<Rightarrow> db \<Rightarrow> int \<Rightarrow> connection_stats" where
  "get_connection_stats clk1 clk2 clk3 clk4 d hours =
     \<lparr>total_connections = length (connections_since (clk1 hours) d),
      protocol_counts = count_by protocol (connections_since (clk2 hours) d),
      top_sources = sql_limit 10 (count_by src_address (connections_since (clk3 hours) d)),
      top_destinations = sql_limit 10 (count_by dst_address (connections_since (clk4 hours) d))\<rparr>"

text \<open>A store whose only connection row is a month old.\<close>

definition stale_db :: db where
  "stale_db = fst (store_active_connections ''2024-05-01T08:00:00'' empty_db [entry_without_orig])"


section \<open>The collection cycle (app.py)\<close>

text \<open>
  A call of a collaborator either returns a value or raises an exception of class \<open>Exception\<close>.
  The router client is modelled by what its methods answer during one cycle: \<open>connect\<close> returns
  a truth value, the three fetches return a list (for the bandwidth mapping: its items, the key
  as \<open>bw_interface\<close>).
\<close>

datatype 'a outcome = Raised | Returned 'a

record mikrotik_api =
  connect :: bool
  get_active_connections :: "raw_entry list outcome"
  get_bandwidth_usage :: "bandwidth_rec list outcome"
  get_traffic_by_ip :: "ip_traffic_rec list outcome"

text \<open>\<open>store_bandwidth_usage\<close>: one row per item of the mapping, nothing for an empty mapping.\<close>

definition store_bandwidth_usage :: "db \<Rightarrow> bandwidth_rec list \<Rightarrow> db \<times> bool" where
  "store_bandwidth_usage d bandwidth_data =
     (if bandwidth_data = [] then (d, False)
      else (d\<lparr>bandwidth_usage := foldl insert_row (bandwidth_usage d) bandwidth_data\<rparr>, True))"

text \<open>
  \<open>collect_data\<close> calls the three store methods of \<open>st.session_state.data_store\<close> inside its
  \<open>try\<close> block. They are taken as a parameter, so that a store method that raises can be
  expressed; \<open>DataStore\<close> are the methods of the class in data\_store.py, which catch every
  exception themselves and always return.
\<close>

record data_store_ops =
  store_active_connections_op :: "db \<Rightarrow> raw_entry list \<Rightarrow> db \<times> bool outcome"
  store_bandwidth_usage_op :: "db \<Rightarrow> bandwidth_rec list \<Rightarrow> db \<times> bool outcome"
  store_ip_traffic_op :: "db \<Rightarrow> ip_traffic_rec list \<Rightarrow> db \<times> bool outcome"

definition returning :: "(db \<Rightarrow> 'a \<Rightarrow> db \<times> bool) \<Rightarrow> db \<Rightarrow> 'a \<Rightarrow> db \<times> bool outcome" where
  "returning f d x = (fst (f d x), Returned (snd (f d x)))"

definition DataStore :: "timestamp \<Rightarrow> data_store_ops" where
  "DataStore now_iso =
     \<lparr>store_active_connections_op = returning (store_active_connections now_iso),
      store_bandwidth_usage_op = returning store_bandwidth_usage,
      store_ip_traffic_op = returning store_ip_traffic\<rparr>"

text \<open>
  \<open>st.session_state\<close>; times are seconds. \<open>threads\<close> counts the background threads started.
\<close>

record session =
  connected :: bool
  api :: "mikrotik_api option"
  data_store :: db
  last_update :: "nat option"
  update_interval :: nat
  auto_update :: bool
  stop_event :: bool
  threads :: nat

text \<open>
  One step of a cycle: the fetch, and the store of its result \<open>if\<close> the result is not empty.
  \<open>collect_data\<close> returns \<open>False\<close> when not connected or without a client; otherwise it runs
  the three steps in order inside \<open>try\<close>. The first exception ends the cycle with \<open>False\<close>;
  what earlier steps stored stays stored. Only after the third step \<open>last_update\<close> is set.
\<close>

definition fetch_and_store ::
    "'a list outcome \<Rightarrow> (db \<Rightarrow> 'a list \<Rightarrow> db \<times> bool outcome) \<Rightarrow> db \<Rightarrow> db \<times> unit outcome" where
  "fetch_and_store fetched store d =
     (case fetched of
        Raised \<Rightarrow> (d, Raised)
      | Returned x \<Rightarrow>
          if x \<noteq> [] then (case store d x of
                              (d', Raised) \<Rightarrow> (d', Raised)
                            | (d', Returned b) \<Rightarrow> (d', Returned ()))
          else (d, Returned ()))"

definition collect_data :: "data_store_ops \<Rightarrow> nat \<Rightarrow> session \<Rightarrow> session \<times> bool" where
  "collect_data ds now s =
     (case api s of
        None \<Rightarrow> (s, False)
      | Some a \<Rightarrow>
     if \<not> connected s then (s, False)
     else
     (case fetch_and_store (get_active_connections a) (store_active_connections_op ds) (data_store s) of
        (d1, Raised) \<Rightarrow> (s\<lparr>data_store := d1\<rparr>, False)
      | (d1, Returned u) \<Rightarrow>
     (case fetch_and_store (get_bandwidth_usage a) (store_bandwidth_usage_op ds) d1 of
        (d2, Raised) \<Rightarrow> (s\<lparr>data_store := d2\<rparr>, False)
      | (d2, Returned u) \<Rightarrow>
     (case fetch_and_store (get_traffic_by_ip a) (store_ip_traffic_op ds) d2 of
        (d3, Raised) \<Rightarrow> (s\<lparr>data_store := d3\<rparr>, False)
      | (d3, Returned u) \<Rightarrow> (s\<lparr>data_store := d3, last_update := Some now\<rparr>, True)))))"

text \<open>
  A fault in a cycle: some fetch raises, or the store of a non-empty fetched result raises
  (whatever the database it is called on).
\<close>

definition fetch_raises :: "mikrotik_api \<Rightarrow> bool" where
  "fetch_raises a =
     (get_active_connections a = Raised \<or> get_bandwidth_usage a = Raised \<or>
      get_traffic_by_ip a = Raised)"

definition store_raises :: "data_store_ops \<Rightarrow> mikrotik_api \<Rightarrow> bool" where
  "store_raises ds a =
     ((\<exists>x. get_active_connections a = Returned x \<and> x \<noteq> [] \<and>
           (\<forall>d. snd (store_active_connections_op ds d x) = Raised)) \<or>
      (\<exists>x. get_bandwidth_usage a = Returned x \<and> x \<noteq> [] \<and>
           (\<forall>d. snd (store_bandwidth_usage_op ds d x) = Raised)) \<or>
      (\<exists>x. get_traffic_by_ip a = Returned x \<and> x \<noteq> [] \<and>
           (\<forall>d. snd (store_ip_traffic_op ds d x) = Raised)))"


section \<open>The background scheduler (app.py)\<close>

text \<open>
  \<open>background_data_collection\<close> is the loop
  \<open>while not stop_event.is_set(): if connected and auto_update: collect_data(); time.sleep(update_interval)\<close>.
  The flags, the period and the client are written by the foreground script, so the thread sees
  them as functions of the time (\<open>world\<close>); the test of the stop event and the start of the cycle
  it guards are one instant of the model. The loop may run forever: the first argument bounds the
  number of iterations, and the result is the list of events so far, the state, and the second at
  which the loop left, if it did.
\<close>

text \<open>The shared state as the background thread finds it at a given second.\<close>

record world =
  stop_at :: "nat \<Rightarrow> bool"
  connected_at :: "nat \<Rightarrow> bool"
  auto_update_at :: "nat \<Rightarrow> bool"
  interval_at :: "nat \<Rightarrow> nat"
  api_at :: "nat \<Rightarrow> mikrotik_api option"
  store_at :: "nat \<Rightarrow> data_store_ops"
  cycle_secs :: "nat \<Rightarrow> nat"

definition observe :: "world \<Rightarrow> nat \<Rightarrow> session \<Rightarrow> session" where
  "observe w t s =
     s\<lparr>connected := connected_at w t, api := api_at w t, update_interval := interval_at w t,
       auto_update := auto_update_at w t, stop_event := stop_at w t\<rparr>"

datatype event = Check nat bool | CycleStart nat | CycleEnd nat bool | Sleep nat nat | Exit nat

fun background_data_collection ::
    "nat \<Rightarrow> world \<Rightarrow> nat \<Rightarrow> session \<Rightarrow> event list \<times> session \<times> nat option" where
  "background_data_collection 0 w t s = ([], s, None)"
| "background_data_collection (Suc n) w t s =
     (let s0 = observe w t s in
      if stop_event s0 then ([Check t True, Exit t], s0, Some t)
      else
        let (evs, s1, t1) =
              (if connected s0 \<and> auto_update s0
               then (let r = collect_data (store_at w t) (t + cycle_secs w t) s0
                     in ([CycleStart t, CycleEnd (t + cycle_secs w t) (snd r)], fst r,
                         t + cycle_secs w t))
               else ([], s0, t));
            d = update_interval (observe w t1 s1);
            (rest, s2, ex) = background_data_collection n w (t1 + d) s1
        in (Check t False # evs @ Sleep t1 d # rest, s2, ex))"




text \<open>
  A run for the examples: a connected session with automatic updates, a period of 60 seconds,
  cycles that take 2 seconds and fetch one connection entry, and a stop signal that is set from
  second \<open>stop_time\<close> on.
\<close>

definition demo_api :: mikrotik_api where
  "demo_api = \<lparr>connect = True, get_active_connections = Returned [entry_without_orig],
                get_bandwidth_usage = Returned [], get_traffic_by_ip = Returned []\<rparr>"

definition demo_world :: "nat \<Rightarrow> world" where
  "demo_world stop_time =
     \<lparr>stop_at = (\<lambda>t. stop_time \<le> t), connected_at = (\<lambda>t. True), auto_update_at = (\<lambda>t. True),
      interval_at = (\<lambda>t. 60), api_at = (\<lambda>t. Some demo_api),
      store_at = (\<lambda>t. DataStore ''2024-06-01T12:00:00''), cycle_secs = (\<lambda>t. 2)\<rparr>"

definition fresh_session :: session where
  "fresh_session =
     \<lparr>connected = False, api = None, data_store = empty_db, last_update = None,
      update_interval = 60, auto_update = False, stop_event = False, threads = 0\<rparr>"


definition faulty_api :: mikrotik_api where
  "faulty_api = \<lparr>connect = True, get_active_connections = Returned [entry_without_orig],
                  get_bandwidth_usage = Raised, get_traffic_by_ip = Returned []\<rparr>"


text \<open>The events, the end and the state of one iteration that found the stop event unset.\<close>

definition iteration_events :: "world \<Rightarrow> nat \<Rightarrow> session \<Rightarrow> event list" where
  "iteration_events w t s =
     (if connected_at w t \<and> auto_update_at w t
      then [CycleStart t, CycleEnd (t + cycle_secs w t)
              (snd (collect_data (store_at w t) (t + cycle_secs w t) (observe w t s)))]
      else [])"

definition iteration_end :: "world \<Rightarrow> nat \<Rightarrow> nat" where
  "iteration_end w t = (if connected_at w t \<and> auto_update_at w t then t + cycle_secs w t else t)"

definition iteration_state :: "world \<Rightarrow> nat \<Rightarrow> session \<Rightarrow> session" where
  "iteration_state w t s =
     (if connected_at w t \<and> auto_update_at w t
      then fst (collect_data (store_at w t) (t + cycle_secs w t) (observe w t s))
      else observe w t s)"

section \<open>Storing and reading back per-IP traffic\<close>










section \<open>Top addresses by traffic\<close>













section \<open>Queries with and without a filter\<close>



section \<open>Host validation\<close>

lemma nullable_iff: "nullable r \<longleftrightarrow> [] \<in> lang r"
  by (induction r) (auto simp: conc_def)

lemma conc_deriv:
  "{s. c # s \<in> conc A B} = conc {s. c # s \<in> A} B \<union> (if [] \<in> A then {s. c # s \<in> B} else {})"
  unfolding conc_def
  by (auto simp: Cons_eq_append_conv)

lemma lang_deriv: "lang (deriv c r) = {s. c # s \<in> lang r}"
proof (induction r)
  case (Seq r1 r2)
  then show ?case
    by (simp add: conc_deriv nullable_iff)
qed (auto simp: conc_def)

lemma matches_iff: "matches r s \<longleftrightarrow> s \<in> lang r"
proof -
  have "nullable (foldl (\<lambda>r c. deriv c r) r s) \<longleftrightarrow> s \<in> lang r" for r
    by (induction s arbitrary: r) (simp_all add: nullable_iff lang_deriv)
  then show ?thesis by (simp add: matches_def)
qed

lemma digit_string_cases:
  "digit_string s \<longleftrightarrow>
     (\<exists>a. s = [a] \<and> is_digit a) \<or>
     (\<exists>a b. s = [a, b] \<and> is_digit a \<and> is_digit b) \<or>
     (\<exists>a b c. s = [a, b, c] \<and> is_digit a \<and> is_digit b \<and> is_digit c)"
proof -
  have "1 \<le> length s \<and> length s \<le> 3 \<longleftrightarrow>
        length s = Suc 0 \<or> length s = Suc (Suc 0) \<or> length s = Suc (Suc (Suc 0))"
    by arith
  then show ?thesis
    unfolding digit_string_def by (auto simp: length_Suc_conv)
qed

lemma Digit_conc:
  "s \<in> conc {[c] | c. is_digit c} B \<longleftrightarrow> (\<exists>c t. s = c # t \<and> is_digit c \<and> t \<in> B)"
proof
  assume "s \<in> conc {[c] | c. is_digit c} B"
  then show "\<exists>c t. s = c # t \<and> is_digit c \<and> t \<in> B"
    by (auto simp: conc_def)
next
  assume "\<exists>c t. s = c # t \<and> is_digit c \<and> t \<in> B"
  then obtain c t where "s = [c] @ t" "is_digit c" "t \<in> B"
    by auto
  then show "s \<in> conc {[c] | c. is_digit c} B"
    unfolding conc_def by blast
qed

lemma Chr_conc: "s \<in> conc B {[d]} \<longleftrightarrow> (\<exists>t. s = t @ [d] \<and> t \<in> B)"
  by (auto simp: conc_def)

lemma lang_digits_1_3: "s \<in> lang digits_1_3 \<longleftrightarrow> digit_string s"
  unfolding digits_1_3_def digit_string_cases
  by (auto simp: Digit_conc)

lemma lang_octet_dot: "s \<in> lang octet_dot \<longleftrightarrow> (\<exists>a. s = a @ ''.'' \<and> digit_string a)"
  unfolding octet_dot_def lang.simps Chr_conc
  by (auto simp: lang_digits_1_3)

lemma lang_ip_pattern:
  "s \<in> lang ip_pattern \<longleftrightarrow>
     (\<exists>a b c d. s = dotted a b c d \<and>
        digit_string a \<and> digit_string b \<and> digit_string c \<and> digit_string d)"
proof
  assume "s \<in> lang ip_pattern"
  then obtain x1 x2 x3 x4 where s: "s = x1 @ x2 @ x3 @ x4"
    and x: "x1 \<in> lang octet_dot" "x2 \<in> lang octet_dot" "x3 \<in> lang octet_dot" "x4 \<in> lang digits_1_3"
    unfolding ip_pattern_def lang.simps conc_def by blast
  from x obtain a b c where "x1 = a @ ''.''" "x2 = b @ ''.''" "x3 = c @ ''.''"
      "digit_string a" "digit_string b" "digit_string c" "digit_string x4"
    unfolding lang_octet_dot lang_digits_1_3 by blast
  with s have "s = dotted a b c x4 \<and> digit_string a \<and> digit_string b \<and> digit_string c \<and> digit_string x4"
    by (simp add: dotted_def)
  then show "\<exists>a b c d. s = dotted a b c d \<and>
        digit_string a \<and> digit_string b \<and> digit_string c \<and> digit_string d"
    by blast
next
  assume "\<exists>a b c d. s = dotted a b c d \<and>
        digit_string a \<and> digit_string b \<and> digit_string c \<and> digit_string d"
  then obtain a b c d where s: "s = dotted a b c d"
    and d: "digit_string a" "digit_string b" "digit_string c" "digit_string d"
    by blast
  have "a @ ''.'' \<in> lang octet_dot" "b @ ''.'' \<in> lang octet_dot" "c @ ''.'' \<in> lang octet_dot"
      "d \<in> lang digits_1_3"
    using d unfolding lang_octet_dot lang_digits_1_3 by blast+
  then have "(a @ ''.'') @ (b @ ''.'') @ (c @ ''.'') @ d \<in> lang ip_pattern"
    unfolding ip_pattern_def lang.simps conc_def by blast
  then show "s \<in> lang ip_pattern"
    by (simp add: s dotted_def)
qed

lemma valid_dotted_quad_accepted:
  assumes "valid_octet a" "valid_octet b" "valid_octet c" "valid_octet d"
  shows "is_valid_ip (dotted a b c d)"
proof -
  have "dotted a b c d \<in> lang ip_pattern"
    using assms unfolding lang_ip_pattern valid_octet_def by blast
  then show ?thesis
    by (simp add: is_valid_ip_def matches_iff)
qed

lemma is_valid_ip_iff:
  "is_valid_ip ip \<longleftrightarrow>
     (\<exists>a b c d. digit_string a \<and> digit_string b \<and> digit_string c \<and> digit_string d \<and>
        (ip = dotted a b c d \<or> ip = dotted a b c d @ [CHR 0x0A]))"
proof -
  have "(ip \<noteq> [] \<and> last ip = CHR 0x0A \<and> butlast ip \<in> lang ip_pattern) \<longleftrightarrow>
      (\<exists>t. t \<in> lang ip_pattern \<and> ip = t @ [CHR 0x0A])"
    by (cases ip rule: rev_cases) auto
  then show ?thesis
    unfolding is_valid_ip_def matches_iff lang_ip_pattern by blast
qed


text \<open>
  C3. Every valid dotted quad is accepted, and a string with an octet that is not numeric is
  rejected (up to one trailing newline, by \<open>is_valid_ip_iff\<close>). The pattern does not look at
  the value of an octet, though: it accepts any one to three digits, so
  \<open>256.256.256.256\<close>, whose octets are out of range, is accepted as a valid IP address.
\<close>

theorem is_valid_ip_out_of_range:
  "is_valid_ip ''256.256.256.256'' \<and> \<not> valid_octet ''256''"
  by (simp add: is_valid_ip_def matches_def ip_pattern_def octet_dot_def digits_1_3_def is_digit_def
      valid_octet_def octet_value_def digit_value_def)



section \<open>Storing connection-tracking entries\<close>















section \<open>Connection statistics\<close>

lemma count_by_Nil: "count_by key [] = []"
  by (simp add: count_by_def)

text \<open>
  C5. When no row of \<open>active_connections\<close> lies in the window of any of the four statements,
  \<open>get_connection_stats\<close> returns the dictionary with \<open>total_connections = 0\<close> and three empty
  collections.
\<close>

theorem empty_window_stats:
  assumes "\<forall>x\<in>set (active_connections d).
             conn_timestamp (snd x) < clk1 hours \<and> conn_timestamp (snd x) < clk2 hours \<and>
             conn_timestamp (snd x) < clk3 hours \<and> conn_timestamp (snd x) < clk4 hours"
  shows "get_connection_stats clk1 clk2 clk3 clk4 d hours =
           \<lparr>total_connections = 0, protocol_counts = [], top_sources = [], top_destinations = []\<rparr>"
proof -
  have "connections_since (c hours) d = []"
    if "\<forall>x\<in>set (active_connections d). conn_timestamp (snd x) < c hours" for c
    using that unfolding connections_since_def by (auto simp: filter_empty_conv)
  then have "connections_since (clk1 hours) d = []" "connections_since (clk2 hours) d = []"
      "connections_since (clk3 hours) d = []" "connections_since (clk4 hours) d = []"
    using assms by blast+
  then show ?thesis
    by (simp add: get_connection_stats_def count_by_Nil sql_limit_def)
qed

lemma stale_db_rows:
  "active_connections stale_db =
     [(1, \<lparr>src_address = ''192.168.88.10:51000'', dst_address = ''8.8.8.8:53'', protocol = ''udp'',
           orig_bytes = 0, repl_bytes = 120, conn_timestamp = ''2024-05-01T08:00:00''\<rparr>)]"
  by (simp add: stale_db_def store_active_connections_def connection_row_def dict_get_def
      entry_without_orig_def insert_row_def empty_db_def
      int_of_string_def strip_def py_isspace_def int_literal_def is_digit_def digit_value_def)

theorem empty_window_stats_witness:
  "get_connection_stats (clock_fixed ''2024-05-31T12:00:00'') (clock_fixed ''2024-05-31T12:00:01'')
      (clock_fixed ''2024-05-31T12:00:01'') (clock_fixed ''2024-05-31T12:00:02'') stale_db 24 =
     \<lparr>total_connections = 0, protocol_counts = [], top_sources = [], top_destinations = []\<rparr>"
  by (rule empty_window_stats) (simp add: stale_db_rows clock_fixed_def)



section \<open>Faults in a collection cycle\<close>

lemma fetch_and_store_Raised:
  "fetched = Raised \<or> (\<exists>x. fetched = Returned x \<and> x \<noteq> [] \<and> (\<forall>d. snd (store d x) = Raised))
     \<Longrightarrow> snd (fetch_and_store fetched store d) = Raised"
  by (auto simp: fetch_and_store_def split: prod.splits outcome.splits)
     (metis outcome.distinct(1) snd_conv)

lemma fetch_and_store_Returned:
  "snd (fetch_and_store fetched store d) = Returned u \<Longrightarrow> fetched \<noteq> Raised"
  by (auto simp: fetch_and_store_def)

lemma collect_data_last_update:
  "last_update (fst (collect_data ds now s)) =
     (if snd (collect_data ds now s) then Some now else last_update s)"
  by (simp add: collect_data_def split: option.splits prod.splits outcome.splits)

lemma collect_data_success:
  assumes "snd (collect_data ds now s)"
  shows "connected s \<and> (\<exists>a. api s = Some a \<and> \<not> fetch_raises a \<and> \<not> store_raises ds a)"
proof -
  from assms obtain a where a: "api s = Some a" and c: "connected s"
    by (auto simp: collect_data_def split: option.splits if_splits)
  let ?r1 = "fetch_and_store (get_active_connections a) (store_active_connections_op ds) (data_store s)"
  let ?r2 = "fetch_and_store (get_bandwidth_usage a) (store_bandwidth_usage_op ds) (fst ?r1)"
  let ?r3 = "fetch_and_store (get_traffic_by_ip a) (store_ip_traffic_op ds) (fst ?r2)"
  from assms a c have r: "snd ?r1 \<noteq> Raised" "snd ?r2 \<noteq> Raised" "snd ?r3 \<noteq> Raised"
    by (auto simp: collect_data_def split: prod.splits outcome.splits)
  have "\<not> fetch_raises a"
    using r fetch_and_store_Raised unfolding fetch_raises_def by metis
  moreover have "\<not> store_raises ds a"
    using r fetch_and_store_Raised unfolding store_raises_def by metis
  ultimately show ?thesis using a c by blast
qed

text \<open>
  C6. \<open>collect_data\<close> never raises: it returns a truth value. When a fetch or a store step of
  the cycle raises, it returns \<open>False\<close> and \<open>last_update\<close> keeps its value; \<open>last_update\<close> is set
  exactly when the function returns \<open>True\<close>, and then no step of the cycle has raised. The
  scheduled cycle and the manual one are the same function.
\<close>

theorem collect_data_fault:
  "(connected s \<and> (\<exists>a. api s = Some a \<and> (fetch_raises a \<or> store_raises ds a)) \<longrightarrow>
      \<not> snd (collect_data ds now s) \<and>
      last_update (fst (collect_data ds now s)) = last_update s) \<and>
   (snd (collect_data ds now s) \<longrightarrow>
      last_update (fst (collect_data ds now s)) = Some now \<and> connected s \<and>
      (\<exists>a. api s = Some a \<and> \<not> fetch_raises a \<and> \<not> store_raises ds a)) \<and>
   (\<not> snd (collect_data ds now s) \<longrightarrow>
      last_update (fst (collect_data ds now s)) = last_update s)"
  using collect_data_success[of ds now s] collect_data_last_update[of ds now s]
  by auto


theorem collect_data_fault_witness:
  "\<not> snd (collect_data (DataStore ''2024-06-01T12:00:00'') 100
           (fresh_session\<lparr>connected := True, api := Some faulty_api, last_update := Some 5\<rparr>)) \<and>
   last_update (fst (collect_data (DataStore ''2024-06-01T12:00:00'') 100
           (fresh_session\<lparr>connected := True, api := Some faulty_api, last_update := Some 5\<rparr>))) = Some 5"
proof -
  let ?s = "fresh_session\<lparr>connected := True, api := Some faulty_api, last_update := Some 5\<rparr>"
  have "connected ?s \<and> (\<exists>a. api ?s = Some a \<and>
      (fetch_raises a \<or> store_raises (DataStore ''2024-06-01T12:00:00'') a))"
    by (simp add: fetch_raises_def faulty_api_def)
  from collect_data_fault[of ?s "DataStore ''2024-06-01T12:00:00''" 100,
      THEN conjunct1, rule_format, OF this]
  have "\<not> snd (collect_data (DataStore ''2024-06-01T12:00:00'') 100 ?s) \<and>
      last_update (fst (collect_data (DataStore ''2024-06-01T12:00:00'') 100 ?s)) = last_update ?s" .
  then show ?thesis by simp
qed


section \<open>The scheduler and the stop signal\<close>

lemma bdc_Suc_stop:
  "stop_at w t \<Longrightarrow>
     background_data_collection (Suc n) w t s = ([Check t True, Exit t], observe w t s, Some t)"
  by (simp add: observe_def Let_def)

lemma bdc_Suc_run:
  "\<not> stop_at w t \<Longrightarrow>
     background_data_collection (Suc n) w t s =
       (Check t False # iteration_events w t s @
          Sleep (iteration_end w t) (interval_at w (iteration_end w t)) #
          fst (background_data_collection n w
                 (iteration_end w t + interval_at w (iteration_end w t)) (iteration_state w t s)),
        snd (background_data_collection n w
                 (iteration_end w t + interval_at w (iteration_end w t)) (iteration_state w t s)))"
  by (simp add: observe_def Let_def iteration_events_def iteration_end_def iteration_state_def
      split: prod.splits)


declare background_data_collection.simps(2) [simp del]



lemma collect_data_ignores_stop:
  "collect_data ds now (s\<lparr>stop_event := b\<rparr>) =
     (fst (collect_data ds now s)\<lparr>stop_event := b\<rparr>, snd (collect_data ds now s))"
  by (simp add: collect_data_def split: option.splits prod.splits outcome.splits)




lemma demo_cycle:
  "collect_data (DataStore ''2024-06-01T12:00:00'') now (observe (demo_world k) 0 fresh_session)
     = ((observe (demo_world k) 0 fresh_session)
          \<lparr>data_store := fst (store_active_connections ''2024-06-01T12:00:00'' empty_db [entry_without_orig]),
           last_update := Some now\<rparr>, True)"
  by (simp add: collect_data_def observe_def demo_world_def fresh_session_def demo_api_def
      fetch_and_store_def DataStore_def returning_def)

lemma demo_run:
  assumes "0 < k" "k \<le> 62"
  shows "fst (background_data_collection (Suc (Suc m)) (demo_world k) 0 fresh_session) =
     [Check 0 False, CycleStart 0, CycleEnd 2 True, Sleep 2 60, Check 62 True, Exit 62] \<and>
   snd (snd (background_data_collection (Suc (Suc m)) (demo_world k) 0 fresh_session)) = Some 62"
proof -
  have s0: "\<not> stop_at (demo_world k) 0" "stop_at (demo_world k) 62"
    using assms by (simp_all add: demo_world_def)
  have fields: "connected_at (demo_world k) 0" "auto_update_at (demo_world k) 0"
      "cycle_secs (demo_world k) 0 = 2" "interval_at (demo_world k) 2 = 60"
      "store_at (demo_world k) 0 = DataStore ''2024-06-01T12:00:00''"
    by (simp_all add: demo_world_def)
  have it: "iteration_end (demo_world k) 0 = 2"
      "iteration_events (demo_world k) 0 fresh_session = [CycleStart 0, CycleEnd 2 True]"
    by (simp_all add: iteration_end_def iteration_events_def fields demo_cycle)
  show ?thesis
    by (simp add: bdc_Suc_run[OF s0(1)] it fields bdc_Suc_stop[OF s0(2)])
qed


lemma bdc_head:
  "fst (background_data_collection n w t s) = [] \<or>
     (\<exists>b r. fst (background_data_collection n w t s) = Check t b # r)"
proof (cases n)
  case 0
  then show ?thesis by simp
next
  case (Suc m)
  then show ?thesis
    by (cases "stop_at w t") (auto simp: bdc_Suc_stop bdc_Suc_run)
qed

lemma sleep_structure:
  "fst (background_data_collection n w t s) = pre @ Sleep t1 d # post \<Longrightarrow>
     d = interval_at w t1 \<and> (post = [] \<or> (\<exists>b post'. post = Check (t1 + d) b # post'))"
proof (induction n arbitrary: t s pre)
  case 0
  then show ?case by simp
next
  case (Suc n)
  show ?case
  proof (cases "stop_at w t")
    case True
    with Suc.prems show ?thesis
      by (simp add: bdc_Suc_stop Cons_eq_append_conv)
  next
    case False
    let ?e = "iteration_end w t"
    let ?rest = "fst (background_data_collection n w (?e + interval_at w ?e) (iteration_state w t s))"
    from Suc.prems False
    have "Check t False # iteration_events w t s @ Sleep ?e (interval_at w ?e) # ?rest
                = pre @ Sleep t1 d # post"
      by (simp add: bdc_Suc_run)
    then consider (here) "t1 = ?e" "d = interval_at w ?e" "post = ?rest"
      | (later) pre2 where "?rest = pre2 @ Sleep t1 d # post"
      by (auto simp: iteration_events_def Cons_eq_append_conv split: if_splits)
    then show ?thesis
    proof cases
      case here
      then show ?thesis
        using bdc_head[of n w "?e + interval_at w ?e" "iteration_state w t s"] by auto
    next
      case later
      from Suc.IH[OF later] show ?thesis .
    qed
  qed
qed

lemma exit_latency:
  assumes stop: "\<forall>u\<ge>stop_time. stop_at w u"
    and int: "\<forall>u. 1 \<le> interval_at w u \<and> interval_at w u \<le> P"
    and cyc: "\<forall>u. cycle_secs w u \<le> C"
  shows "0 < n \<Longrightarrow> stop_time < t + n \<Longrightarrow>
     \<exists>tx. snd (snd (background_data_collection n w t s)) = Some tx \<and> stop_at w tx \<and>
          (tx = t \<or> tx < stop_time + C + P)"
proof (induction n arbitrary: t s)
  case 0
  then show ?case by simp
next
  case (Suc n)
  show ?case
  proof (cases "stop_at w t")
    case True
    then show ?thesis by (simp add: bdc_Suc_stop)
  next
    case False
    let ?e = "iteration_end w t"
    let ?t' = "?e + interval_at w ?e"
    have lt: "t < stop_time" using False stop by (meson not_le_imp_less)
    have e: "t \<le> ?e" "?e \<le> t + C" using cyc by (simp_all add: iteration_end_def)
    have i: "1 \<le> interval_at w ?e" "interval_at w ?e \<le> P" using int by simp_all
    have n: "0 < n" using Suc.prems lt by simp
    have fuel: "stop_time < ?t' + n" using Suc.prems e i by simp
    from Suc.IH[OF n fuel, of "iteration_state w t s"]
    obtain tx where tx: "snd (snd (background_data_collection n w ?t' (iteration_state w t s))) = Some tx"
        "stop_at w tx" "tx = ?t' \<or> tx < stop_time + C + P"
      by blast
    have "tx < stop_time + C + P" using tx(3) e i lt by auto
    with tx(1,2) show ?thesis
      using False by (simp add: bdc_Suc_run)
  qed
qed

text \<open>
  C8 (as the code has it). The loop tests the stop signal once per iteration, at the top; the
  sleep is one uninterrupted \<open>time.sleep\<close> of the full period, followed directly by the next
  test. Once the signal is set and stays set, the loop leaves at its next test: later than the
  signal by less than the duration of a cycle plus one full period.
\<close>

theorem scheduler_exit_latency:
  "(\<forall>pre t1 d post. fst (background_data_collection n w t s) = pre @ Sleep t1 d # post \<longrightarrow>
       d = interval_at w t1 \<and> (post = [] \<or> (\<exists>b post'. post = Check (t1 + d) b # post'))) \<and>
   (\<forall>stop_time P C.
       (\<forall>u\<ge>stop_time. stop_at w u) \<and> (\<forall>u. 1 \<le> interval_at w u \<and> interval_at w u \<le> P) \<and>
       (\<forall>u. cycle_secs w u \<le> C) \<and> t \<le> stop_time \<and> stop_time < t + n \<longrightarrow>
       (\<exists>tx. snd (snd (background_data_collection n w t s)) = Some tx \<and> stop_at w tx \<and>
             tx < stop_time + C + P))"
proof -
  have c1: "\<forall>pre t1 d post. fst (background_data_collection n w t s) = pre @ Sleep t1 d # post \<longrightarrow>
       d = interval_at w t1 \<and> (post = [] \<or> (\<exists>b post'. post = Check (t1 + d) b # post'))"
    by (intro allI impI) (rule sleep_structure)
  have c2: "\<forall>stop_time P C.
       (\<forall>u\<ge>stop_time. stop_at w u) \<and> (\<forall>u. 1 \<le> interval_at w u \<and> interval_at w u \<le> P) \<and>
       (\<forall>u. cycle_secs w u \<le> C) \<and> t \<le> stop_time \<and> stop_time < t + n \<longrightarrow>
       (\<exists>tx. snd (snd (background_data_collection n w t s)) = Some tx \<and> stop_at w tx \<and>
             tx < stop_time + C + P)"
  proof (intro allI impI)
    fix stop_time P C
    assume h: "(\<forall>u\<ge>stop_time. stop_at w u) \<and> (\<forall>u. 1 \<le> interval_at w u \<and> interval_at w u \<le> P) \<and>
       (\<forall>u. cycle_secs w u \<le> C) \<and> t \<le> stop_time \<and> stop_time < t + n"
    then have h1: "\<forall>u\<ge>stop_time. stop_at w u"
      and h2: "\<forall>u. 1 \<le> interval_at w u \<and> interval_at w u \<le> P"
      and h3: "\<forall>u. cycle_secs w u \<le> C"
      and h4: "t \<le> stop_time" and h5: "stop_time < t + n"
      by simp_all
    from h5 h4 have n: "0 < n" by simp
    from h2 have P: "1 \<le> P" by (meson order_trans)
    from exit_latency[OF h1 h2 h3 n h5, of s]
    obtain tx where tx: "snd (snd (background_data_collection n w t s)) = Some tx" "stop_at w tx"
        "tx = t \<or> tx < stop_time + C + P"
      by blast
    have "tx < stop_time + C + P" using tx(3) h4 P by auto
    with tx(1,2) show "\<exists>tx. snd (snd (background_data_collection n w t s)) = Some tx \<and> stop_at w tx \<and>
             tx < stop_time + C + P"
      by blast
  qed
  from c1 c2 show ?thesis by (intro conjI)
qed

theorem scheduler_exit_latency_witness:
  "snd (snd (background_data_collection 4 (demo_world 3) 0 fresh_session)) = Some 62 \<and>
   (62::nat) < 3 + 2 + 60"
proof -
  have hyp: "(\<forall>u\<ge>3. stop_at (demo_world 3) u) \<and>
       (\<forall>u. 1 \<le> interval_at (demo_world 3) u \<and> interval_at (demo_world 3) u \<le> 60) \<and>
       (\<forall>u. cycle_secs (demo_world 3) u \<le> 2) \<and> (0::nat) \<le> 3 \<and> (3::nat) < 0 + 4"
    by (simp add: demo_world_def)
  from scheduler_exit_latency[of 4 "demo_world 3" 0 fresh_session,
      THEN conjunct2, rule_format, OF hyp]
  obtain tx where tx: "snd (snd (background_data_collection 4 (demo_world 3) 0 fresh_session)) = Some tx"
      "tx < 3 + 2 + 60"
    by blast
  have "snd (snd (background_data_collection 4 (demo_world 3) 0 fresh_session)) = Some 62"
    using demo_run[of 3 2] by (simp add: eval_nat_numeral)
  with tx show ?thesis by simp
qed

text \<open>
  The claim as stated fails: with a period of 60 seconds and the signal set at second 3, one
  second into the sleep that began at second 2, the loop tests the signal next at second 62 and
  leaves only then.
\<close>

theorem scheduler_exit_latency_counterexample:
  "stop_at (demo_world 3) 3 \<and>
   fst (background_data_collection 2 (demo_world 3) 0 fresh_session) =
     [Check 0 False, CycleStart 0, CycleEnd 2 True, Sleep 2 60, Check 62 True, Exit 62] \<and>
   snd (snd (background_data_collection 2 (demo_world 3) 0 fresh_session)) = Some 62"
  using demo_run[of 3 0] by (simp add: numeral_2_eq_2 demo_world_def)

section \<open>Connecting\<close>












end
